theory Spec2Isabelle
  imports Main "HOL-Library.AList"
begin

section \<open>Values and request items\<close>

text \<open>
  \<open>LSPAny\<close>: the JSON values that travel in a configuration response, plus JavaScript's
  \<open>undefined\<close> (the content of an array hole and of a missing setting).
\<close>

datatype lspany =
    Undefined
  | Null
  | Bool bool
  | Num int
  | Str string
  | Arr "lspany list"
  | Obj "(string \<times> lspany) list"

text \<open>
  \<open>ConfigurationItem\<close> of the protocol: both fields are optional.
\<close>

record item =
  item_section :: "string option"
  item_scopeUri :: "string option"

text \<open>
  JavaScript truthiness of \<open>param.section\<close>: a missing section and the empty string are
  both falsy.
\<close>

definition truthy_section :: "item \<Rightarrow> bool" where
  "truthy_section p = (case item_section p of None \<Rightarrow> False | Some s \<Rightarrow> s \<noteq> [])"

text \<open>
  \<open>result[index] = v\<close> on a JavaScript array: inside the array the slot is replaced, beyond
  its end the array grows and the slots in between are holes.
\<close>

definition js_set :: "lspany list \<Rightarrow> nat \<Rightarrow> lspany \<Rightarrow> lspany list" where
  "js_set xs i v =
     (if i < length xs then xs[i := v]
      else xs @ replicate (i - length xs) Undefined @ [v])"

text \<open>\<open>result[index]\<close> read: \<open>undefined\<close> beyond the end.\<close>

definition js_get :: "lspany list \<Rightarrow> nat \<Rightarrow> lspany" where
  "js_get xs i = (if i < length xs then xs ! i else Undefined)"

section \<open>The configuration middleware of zls.ts\<close>

text \<open>
  What the middleware reads from its surroundings. \<open>camelCase\<close> is the npm package of
  that name; \<open>handleConfigOption\<close> and \<open>getZigPath\<close> are imported from zigUtil
  (\<open>getZigPath\<close> throws when no compiler is found: \<open>None\<close>). The other fields are the
  \<open>zig.zls\<close> workspace configuration: \<open>config_get\<close> is \<open>configuration.get(section)\<close>,
  \<open>additionalOptions\<close> is \<open>configuration.get("additionalOptions", {})\<close> as the list of
  its own properties in enumeration order, and \<open>has_default section\<close> is
  \<open>configuration.inspect(section)?.defaultValue !== undefined\<close>. \<open>answer\<close> is what the
  user picks in the warning shown for an option name.
\<close>

datatype answer = UseInstead | ShowAdditionalOptions | Dismissed

record bridge_env =
  camelCase :: "string \<Rightarrow> string"
  config_get :: "string \<Rightarrow> lspany"
  handleConfigOption :: "string \<Rightarrow> string"
  getZigPath :: "string option"
  additionalOptions :: "(string \<times> lspany) list"
  has_default :: "string \<Rightarrow> bool"
  answer :: "string \<Rightarrow> answer"

text \<open>The side effects of the middleware, in the order they happen.\<close>

datatype effect =
    ShowConflictWarning string
  | UpdateAdditionalOptions "(string \<times> lspany) list"
  | UpdateSetting string lspany
  | OpenSettingsJson

text \<open>
  Lines 157-161: the legacy alias becomes the compiler-path setting, every other section
  loses its first four characters, is camel-cased and is put under \<open>zig.zls.\<close>.
\<close>

definition rewrite_section :: "(string \<Rightarrow> string) \<Rightarrow> string \<Rightarrow> string" where
  "rewrite_section cc s =
     (if s = ''zls.zig_exe_path'' then ''zig.path''
      else ''zig.zls.'' @ cc (drop 4 s))"

text \<open>
  Lines 155-164, \<open>params.items.forEach\<close>: items are rewritten in place and
  \<open>optionIndices[param.section] = index\<close> records the index under the rewritten name.
  \<open>optionIndices\<close> is an object: assigning an existing key replaces its value and keeps
  its place in the enumeration order, a new key goes last (\<open>AList.update\<close>).
\<close>

fun forEach_items ::
  "(string \<Rightarrow> string) \<Rightarrow> nat \<Rightarrow> item list \<Rightarrow> (string \<times> nat) list
     \<Rightarrow> item list \<times> (string \<times> nat) list" where
  "forEach_items cc index [] optionIndices = ([], optionIndices)"
| "forEach_items cc index (param # params) optionIndices =
     (if truthy_section param then
        let s = rewrite_section cc (the (item_section param));
            (ps, oi) = forEach_items cc (Suc index) params (AList.update s index optionIndices)
        in (param\<lparr>item_section := Some s\<rparr> # ps, oi)
      else
        let (ps, oi) = forEach_items cc (Suc index) params optionIndices
        in (param # ps, oi))"

text \<open>
  Lines 173-180: every recorded name whose setting is a non-empty string gets the
  normalised string written into its slot.
\<close>

fun normalize_loop ::
  "bridge_env \<Rightarrow> (string \<times> nat) list \<Rightarrow> lspany list \<Rightarrow> lspany list" where
  "normalize_loop E [] result = result"
| "normalize_loop E ((name, index) # rest) result =
     (let section = drop 8 name;
          configValue = config_get E section
      in normalize_loop E rest
           (case configValue of
              Str s \<Rightarrow> if s \<noteq> [] then js_set result index (Str (handleConfigOption E s))
                       else result
            | _ \<Rightarrow> result))"

text \<open>
  Lines 182-191: the slot of \<open>zig.path\<close> gets the discovered compiler path, or
  \<open>null\<close> when discovery throws (the \<open>catch\<close> swallows the error).
\<close>

definition inject_zig_path ::
  "bridge_env \<Rightarrow> (string \<times> nat) list \<Rightarrow> lspany list \<Rightarrow> lspany list" where
  "inject_zig_path E optionIndices result =
     (case map_of optionIndices ''zig.path'' of
        None \<Rightarrow> result
      | Some indexOfZigPath \<Rightarrow>
          (case getZigPath E of
             Some p \<Rightarrow> js_set result indexOfZigPath (Str p)
           | None \<Rightarrow> js_set result indexOfZigPath Null))"

text \<open>
  Lines 222-228, the tail of one round of the additional-options loop:
  \<open>if (!optionIndex) continue\<close> skips a name that was not recorded and also a name
  recorded at index 0. (\<open>optionIndices\<close> is a plain object, so a name such as
  \<open>constructor\<close> finds an inherited member instead of \<open>undefined\<close>; the assignment
  then sets a property of the array that is no index and leaves its elements and its
  length as they are, which is what \<open>None\<close> gives here.)
\<close>

definition apply_option ::
  "(string \<times> nat) list \<Rightarrow> string \<Rightarrow> lspany \<Rightarrow> lspany list \<Rightarrow> lspany list" where
  "apply_option optionIndices optionName v result =
     (case map_of optionIndices optionName of
        None \<Rightarrow> result
      | Some optionIndex \<Rightarrow>
          if optionIndex = 0 then result else js_set result optionIndex v)"

text \<open>
  Lines 195-229: the loop over the additional options. The third argument is what is left
  to visit, each name with its value (\<open>additionalOptions[optionName]\<close>; the names of an
  object are distinct); the whole map, from which the destructuring of line 208 removes
  the current name, is \<open>additionalOptions E\<close>. The state is the response array and the
  effects so far.
\<close>

fun additional_loop ::
  "bridge_env \<Rightarrow> (string \<times> nat) list \<Rightarrow> (string \<times> lspany) list
     \<Rightarrow> lspany list \<times> effect list \<Rightarrow> lspany list \<times> effect list" where
  "additional_loop E optionIndices [] st = st"
| "additional_loop E optionIndices ((optionName, v) # rest) (result, effs) =
     (let section = drop 8 optionName;
          doesOptionExist = has_default E section
      in if doesOptionExist then
           (case answer E optionName of
              UseInstead \<Rightarrow>
                additional_loop E optionIndices rest
                  (apply_option optionIndices optionName v result,
                   effs @ [ShowConflictWarning optionName,
                           UpdateAdditionalOptions
                             (AList.delete optionName (additionalOptions E)),
                           UpdateSetting section v])
            | ShowAdditionalOptions \<Rightarrow>
                additional_loop E optionIndices rest
                  (result, effs @ [ShowConflictWarning optionName, OpenSettingsJson])
            | Dismissed \<Rightarrow>
                additional_loop E optionIndices rest
                  (result, effs @ [ShowConflictWarning optionName]))
         else
           additional_loop E optionIndices rest
             (apply_option optionIndices optionName v result, effs))"

text \<open>
  Lines 148-232. \<open>next\<close> is the continuation of the client library: it answers the
  rewritten items with a \<open>ResponseError\<close> (\<open>Inl\<close>) or with the array of values.
\<close>

definition configurationMiddleware ::
  "bridge_env \<Rightarrow> item list \<Rightarrow> (item list \<Rightarrow> 'e + lspany list)
     \<Rightarrow> ('e + lspany list) \<times> effect list" where
  "configurationMiddleware E items next =
     (let (params, optionIndices) = forEach_items (camelCase E) 0 items []
      in case next params of
           Inl err \<Rightarrow> (Inl err, [])
         | Inr result \<Rightarrow>
             (let result1 = normalize_loop E optionIndices result;
                  result2 = inject_zig_path E optionIndices result1;
                  (result3, effs) =
                     additional_loop E optionIndices (additionalOptions E) (result2, [])
              in (Inr result3, effs)))"

text \<open>The two results of the \<open>forEach\<close> of a whole request, which starts at index 0 with
  an empty \<open>optionIndices\<close>: the items handed to the continuation and the recorded indices.\<close>

definition params_of :: "bridge_env \<Rightarrow> item list \<Rightarrow> item list" where
  "params_of E items = fst (forEach_items (camelCase E) 0 items [])"

definition optionIndices_of :: "bridge_env \<Rightarrow> item list \<Rightarrow> (string \<times> nat) list" where
  "optionIndices_of E items = snd (forEach_items (camelCase E) 0 items [])"

text \<open>The name under which an item with a section is recorded.\<close>

definition rewritten :: "(string \<Rightarrow> string) \<Rightarrow> item \<Rightarrow> string" where
  "rewritten cc p = rewrite_section cc (the (item_section p))"

text \<open>
  The index of the last item, counted from \<open>k\<close>, that has a section and is recorded
  under the name \<open>n\<close>.
\<close>

fun last_index :: "(string \<Rightarrow> string) \<Rightarrow> nat \<Rightarrow> item list \<Rightarrow> string \<Rightarrow> nat option" where
  "last_index cc k [] n = None"
| "last_index cc k (p # ps) n =
     (case last_index cc (Suc k) ps n of
        Some j \<Rightarrow> Some j
      | None \<Rightarrow> if truthy_section p \<and> rewritten cc p = n then Some k else None)"

text \<open>
  The entries of the additional options that meet a setting with a declared default
  (\<open>doesOptionExist\<close> of line 198).
\<close>

definition conflicts :: "bridge_env \<Rightarrow> (string \<times> lspany) list" where
  "conflicts E = filter (\<lambda>(optionName, v). has_default E (drop 8 optionName)) (additionalOptions E)"

text \<open>The option names shown in conflict warnings, and the writes to the settings store.\<close>

fun prompts :: "effect list \<Rightarrow> string list" where
  "prompts [] = []"
| "prompts (ShowConflictWarning optionName # es) = optionName # prompts es"
| "prompts (e # es) = prompts es"

fun is_store_write :: "effect \<Rightarrow> bool" where
  "is_store_write (UpdateAdditionalOptions m) = True"
| "is_store_write (UpdateSetting s v) = True"
| "is_store_write e = False"

text \<open>
  The entries that the loop passes on to lines 222-228: those without a conflict and those
  whose conflict the user resolved with \<open>Use ... instead\<close>.
\<close>

definition reaches_response :: "bridge_env \<Rightarrow> string \<times> lspany \<Rightarrow> bool" where
  "reaches_response E = (\<lambda>(optionName, v).
     \<not> has_default E (drop 8 optionName) \<or> answer E optionName = UseInstead)"





section \<open>Resolving, locating and verifying the server binary\<close>

text \<open>
  A thrown JavaScript value: an instance of \<open>Error\<close> with its message, or anything else.
  A call either throws or returns.
\<close>

datatype thrown = ErrorObj string | OtherThrown lspany

datatype 'a outcome = Throws thrown | Returns 'a

text \<open>
  The answer of the selection service, \<open>SelectVersionResponse | SelectVersionFailureResponse\<close>:
  a JSON object, as the list of its properties. An object is truthy, so \<open>!response\<close>
  of line 297 holds exactly when the cache had nothing under the key.
\<close>

type_synonym response = "(string \<times> lspany) list"

text \<open>\<open>key in response\<close> and \<open>response[key]\<close> (\<open>undefined\<close> for a missing property).\<close>

definition has_key :: "string \<Rightarrow> response \<Rightarrow> bool" where
  "has_key k r = (k \<in> fst ` set r)"

definition js_prop :: "response \<Rightarrow> string \<Rightarrow> lspany" where
  "js_prop r k = (case map_of r k of None \<Rightarrow> Undefined | Some v \<Rightarrow> v)"

datatype enabled = Ask | Off | On

text \<open>What \<open>languageClient.start()\<close> and the line after it do in \<open>startClient\<close>.\<close>

datatype start_result =
    StartRejected thrown
  | StartedThenThrew nat thrown
  | StartedOk nat

text \<open>
  The surroundings of zls.ts. \<open>'v\<close> is \<open>semver.SemVer\<close>, used through its \<open>raw\<close>
  field, its \<open>compare\<close> method and its constructor (which throws on a string that is no
  version). \<open>zig_getVersion\<close> is \<open>getVersion(getZigPath(), "version")\<close>,
  \<open>getVersion\<close> is \<open>getVersion(zlsExePath, "--version")\<close>, \<open>axios_get\<close> is the query
  for a compiler version string, \<open>fsPath\<close> turns path segments below the global storage
  directory into a file-system path, \<open>downloadAndExtractArtifact\<close> tells whether the
  installation into a directory succeeded (it throws otherwise).
\<close>

record 'v host =
  cfg_path :: "string option"
  cfg_enabled :: enabled
  cfg_debugLog :: bool
  zig_getVersion :: "'v option outcome"
  semver_raw :: "'v \<Rightarrow> string"
  semver_compare :: "'v \<Rightarrow> 'v \<Rightarrow> int"
  new_SemVer :: "lspany \<Rightarrow> thrown + 'v"
  axios_get :: "string \<Rightarrow> thrown + response"
  getHostZigName :: string
  fsPath :: "string list \<Rightarrow> string"
  isWindows :: bool
  existsSync :: "string \<Rightarrow> bool"
  downloadAndExtractArtifact :: "string \<Rightarrow> lspany \<Rightarrow> bool"
  getVersion :: "string \<Rightarrow> 'v option"
  languageClient_start :: "string \<Rightarrow> bool \<Rightarrow> start_result"
  client_stop :: "nat \<Rightarrow> thrown option"
  client_dispose :: "nat \<Rightarrow> thrown option"

text \<open>
  The mutable state: the module variable \<open>client\<close> (a session, by its number) and the
  extension's \<open>globalState\<close>.
\<close>

record world =
  client :: "nat option"
  globalState :: "string \<rightharpoonup> response"

text \<open>
  What the user sees and what happens to sessions, in order. The messages stand for the
  template strings of the source: \<open>Failed to query ZLS version: ...\<close> (line 299),
  \<open>Unable to fetch ZLS: ...\<close> (308), \<open>A prebuilt ZLS ... binary is not available\<close>
  (316), \<open>Failed to install ZLS ...!\<close> (123), \<open>Unable to check ZLS version\<close> (131),
  \<open>Encountered unexpected ZLS version\<close> (137), all shown with \<open>showErrorMessage\<close>, and
  the warning \<open>Failed to run Zig Language Server (ZLS)\<close> (45, 47).
\<close>

datatype 'v event =
    ErrFailedToQuery string
  | ErrUnableToFetch lspany
  | ErrNoPrebuilt lspany
  | ErrFailedToInstall 'v
  | ErrUnableToCheck string
  | ErrUnexpectedVersion 'v string 'v
  | WarnFailedToRun "string option"
  | Started nat
  | Stopped nat
  | Disposed nat

text \<open>JavaScript truthiness of an optional string setting.\<close>

definition truthy_str :: "string option \<Rightarrow> bool" where
  "truthy_str p = (case p of None \<Rightarrow> False | Some s \<Rightarrow> s \<noteq> [])"

definition cacheKey :: "'v host \<Rightarrow> 'v \<Rightarrow> string" where
  "cacheKey H zigVersion = ''zls-select-version-'' @ semver_raw H zigVersion"

text \<open>
  Lines 307-324 of \<open>fetchVersion\<close>: what is made of a response, wherever it came from.
\<close>

definition select_artifact ::
  "'v host \<Rightarrow> response \<Rightarrow> ('v \<times> lspany) option outcome \<times> 'v event list" where
  "select_artifact H response =
     (if has_key ''message'' response then
        (Returns None, [ErrUnableToFetch (js_prop response ''message'')])
      else
        let hostName = getHostZigName H
        in if \<not> has_key hostName response then
             (Returns None, [ErrNoPrebuilt (js_prop response ''version'')])
           else
             (case new_SemVer H (js_prop response ''version'') of
                Inl err \<Rightarrow> (Throws err, [])
              | Inr v \<Rightarrow> (Returns (Some (v, js_prop response hostName)), [])))"

text \<open>
  Lines 264-325. The \<open>try\<close> block stores the answer of a successful query before anything
  looks at it; the \<open>catch\<close> block reads the cache, and with nothing there it reports an
  \<open>Error\<close> and rethrows any other value.
\<close>

definition fetchVersion ::
  "'v host \<Rightarrow> world \<Rightarrow> 'v \<Rightarrow> bool
     \<Rightarrow> ('v \<times> lspany) option outcome \<times> world \<times> 'v event list" where
  "fetchVersion H w zigVersion useCache =
     (let key = cacheKey H zigVersion
      in case axios_get H (semver_raw H zigVersion) of
           Inr data \<Rightarrow>
             (let w' = (if useCache then w\<lparr>globalState := (globalState w)(key \<mapsto> data)\<rparr> else w);
                  (res, msgs) = select_artifact H data
              in (res, w', msgs))
         | Inl err \<Rightarrow>
             (case (if useCache then globalState w key else None) of
                Some response \<Rightarrow>
                  (let (res, msgs) = select_artifact H response in (res, w, msgs))
              | None \<Rightarrow>
                  (case err of
                     ErrorObj m \<Rightarrow> (Returns None, w, [ErrFailedToQuery m])
                   | OtherThrown x \<Rightarrow> (Throws err, w, []))))"

text \<open>
  Lines 129-145 of \<open>getZLSPath\<close>: the executable is asked for its version, which must
  parse and, when a version is expected, compare equal to it.
\<close>

definition check_version ::
  "'v host \<Rightarrow> string \<Rightarrow> 'v option \<Rightarrow> (string \<times> 'v) option \<times> 'v event list" where
  "check_version H zlsExePath zlsVersion =
     (case getVersion H zlsExePath of
        None \<Rightarrow> (None, [ErrUnableToCheck zlsExePath])
      | Some checkedZLSVersion \<Rightarrow>
          (case zlsVersion of
             None \<Rightarrow> (Some (zlsExePath, checkedZLSVersion), [])
           | Some expected \<Rightarrow>
               if semver_compare H checkedZLSVersion expected \<noteq> 0 then
                 (None, [ErrUnexpectedVersion expected zlsExePath checkedZLSVersion])
               else (Some (zlsExePath, checkedZLSVersion), [])))"

text \<open>
  Lines 88-146. A configured path is taken as it is, with no expected version; otherwise
  the version is resolved from the compiler's, the install directory is derived from it,
  the artifact is installed when the executable is missing, and the resolved version is
  the expected one.
\<close>

definition getZLSPath ::
  "'v host \<Rightarrow> world \<Rightarrow> (string \<times> 'v) option outcome \<times> world \<times> 'v event list" where
  "getZLSPath H w =
     (if truthy_str (cfg_path H) then
        (let (res, msgs) = check_version H (the (cfg_path H)) None
         in (Returns res, w, msgs))
      else if cfg_enabled H \<noteq> On then (Returns None, w, [])
      else
        (case zig_getVersion H of
           Throws err \<Rightarrow> (Returns None, w, [])
         | Returns None \<Rightarrow> (Returns None, w, [])
         | Returns (Some zigVersion) \<Rightarrow>
             (case fetchVersion H w zigVersion True of
                (Throws err, w', msgs) \<Rightarrow> (Throws err, w', msgs)
              | (Returns None, w', msgs) \<Rightarrow> (Returns None, w', msgs)
              | (Returns (Some (version, artifact)), w', msgs) \<Rightarrow>
                  (let installDir = [''zls'', semver_raw H version];
                       zlsExePath =
                         fsPath H (installDir @ [if isWindows H then ''zls.exe'' else ''zls''])
                   in if \<not> existsSync H zlsExePath
                         \<and> \<not> downloadAndExtractArtifact H (fsPath H installDir) artifact
                      then (Returns None, w', msgs @ [ErrFailedToInstall version])
                      else
                        (let (res, msgs') = check_version H zlsExePath (Some version)
                         in (Returns res, w', msgs @ msgs'))))))"

section \<open>The session life cycle\<close>

text \<open>Lines 78-85: shutdown, then exit, then the handle is cleared.\<close>

definition stopClient :: "'v host \<Rightarrow> world \<Rightarrow> unit outcome \<times> world \<times> 'v event list" where
  "stopClient H w =
     (case client w of
        None \<Rightarrow> (Returns (), w, [])
      | Some c \<Rightarrow>
          (case client_stop H c of
             Some err \<Rightarrow> (Throws err, w, [])
           | None \<Rightarrow>
               (case client_dispose H c of
                  Some err \<Rightarrow> (Throws err, w, [Stopped c])
                | None \<Rightarrow> (Returns (), w\<lparr>client := None\<rparr>, [Stopped c, Disposed c]))))"

text \<open>Lines 52-76: a new client is created and started; the handle is not touched.\<close>

definition startClient :: "'v host \<Rightarrow> string \<Rightarrow> nat outcome \<times> 'v event list" where
  "startClient H zlsPath =
     (case languageClient_start H zlsPath (cfg_debugLog H) of
        StartRejected err \<Rightarrow> (Throws err, [])
      | StartedThenThrew n err \<Rightarrow> (Throws err, [Started n])
      | StartedOk n \<Rightarrow> (Returns n, [Started n]))"

definition warning_for :: "thrown \<Rightarrow> 'v event" where
  "warning_for reason =
     (case reason of ErrorObj m \<Rightarrow> WarnFailedToRun (Some m) | OtherThrown x \<Rightarrow> WarnFailedToRun None)"

text \<open>
  Lines 29-50. The \<open>try\<close> block holds the start of the new client, the stop of the old
  one and the assignment of the handle; whatever it throws becomes a warning.
\<close>

definition restartClient :: "'v host \<Rightarrow> world \<Rightarrow> unit outcome \<times> world \<times> 'v event list" where
  "restartClient H w =
     (if \<not> truthy_str (cfg_path H) \<and> cfg_enabled H \<noteq> On then stopClient H w
      else
        (case getZLSPath H w of
           (Throws err, w1, l1) \<Rightarrow> (Throws err, w1, l1)
         | (Returns None, w1, l1) \<Rightarrow> (Returns (), w1, l1)
         | (Returns (Some (exe, version)), w1, l1) \<Rightarrow>
             (case startClient H exe of
                (Throws reason, l2) \<Rightarrow> (Returns (), w1, l1 @ l2 @ [warning_for reason])
              | (Returns newClient, l2) \<Rightarrow>
                  (case stopClient H w1 of
                     (Throws reason, w2, l3) \<Rightarrow>
                       (Returns (), w2, l1 @ l2 @ l3 @ [warning_for reason])
                   | (Returns u, w2, l3) \<Rightarrow>
                       (Returns (), w2\<lparr>client := Some newClient\<rparr>, l1 @ l2 @ l3)))))"

text \<open>
  The sessions that are live after a run of events: a started session is live until it is
  stopped.
\<close>

fun live_after :: "nat list \<Rightarrow> 'v event list \<Rightarrow> nat list" where
  "live_after live [] = live"
| "live_after live (Started n # evs) = live_after (live @ [n]) evs"
| "live_after live (Stopped n # evs) = live_after (remove1 n live) evs"
| "live_after live (e # evs) = live_after live evs"

text \<open>The events that are messages to the user, as opposed to session events.\<close>

fun is_message :: "'v event \<Rightarrow> bool" where
  "is_message (Started n) = False"
| "is_message (Stopped n) = False"
| "is_message (Disposed n) = False"
| "is_message e = True"

section \<open>Sample inputs\<close>

text \<open>
  A sample exchange: the server asks for sections whose leaf names are single lower-case
  words (which \<open>camelCase\<close> returns as they are), no setting is a string, the compiler is
  found, the additional options hold one entry that meets no declared setting, and the
  continuation answers \<open>null\<close> for every item.
\<close>

definition sample_env :: bridge_env where
  "sample_env =
     \<lparr>camelCase = (\<lambda>s. s), config_get = (\<lambda>s. Undefined), handleConfigOption = (\<lambda>s. s),
      getZigPath = Some ''/usr/bin/zig'', additionalOptions = [(''zig.zls.foo'', Num 1)],
      has_default = (\<lambda>s. False), answer = (\<lambda>s. Dismissed)\<rparr>"

definition sample_item :: "string \<Rightarrow> item" where
  "sample_item s = \<lparr>item_section = Some s, item_scopeUri = None\<rparr>"

definition sample_next :: "item list \<Rightarrow> unit + lspany list" where
  "sample_next ps = Inr (map (\<lambda>p. Null) ps)"


text \<open>
  The sample exchange with an additional option named like the compiler-path setting, and
  with an additional option that meets the declared setting \<open>foo\<close>.
\<close>

definition override_env :: bridge_env where
  "override_env = sample_env\<lparr>additionalOptions := [(''zig.path'', Str ''/opt/zig'')]\<rparr>"

definition conflict_env :: bridge_env where
  "conflict_env = sample_env\<lparr>has_default := (\<lambda>s. s = ''foo'')\<rparr>"

text \<open>
  A sample host: ZLS is enabled with no configured path, the compiler reports 0.13.0, the
  selection service answers with a build for this platform, the executable is installed and
  reports the resolved version, and a session (number 1) is running. Versions are a triple
  of numbers with the raw string; they are compared by the triple.
\<close>

type_synonym sample_version = "(nat \<times> nat \<times> nat) \<times> string"

definition sample_compare :: "sample_version \<Rightarrow> sample_version \<Rightarrow> int" where
  "sample_compare a b =
     (case (fst a, fst b) of
        ((a1, a2, a3), (b1, b2, b3)) \<Rightarrow>
          if a1 < b1 then - 1 else if b1 < a1 then 1
          else if a2 < b2 then - 1 else if b2 < a2 then 1
          else if a3 < b3 then - 1 else if b3 < a3 then 1 else 0)"

definition sample_new_SemVer :: "lspany \<Rightarrow> thrown + sample_version" where
  "sample_new_SemVer x =
     (if x = Str ''0.13.0'' then Inr ((0, 13, 0), ''0.13.0'')
      else Inl (ErrorObj ''Invalid Version''))"

definition sample_response :: response where
  "sample_response =
     [(''version'', Str ''0.13.0''), (''date'', Str ''2024-06-09''),
      (''x86_64-linux'',
         Obj [(''tarball'', Str ''zls-linux-x86_64-0.13.0.tar.xz''),
              (''shasum'', Str ''9848514524f5e5d33997ac280b7d92388407209d4b8d4be3866dc3cf30ca6ca8''),
              (''size'', Str ''3621092'')])]"

definition sample_failure :: response where
  "sample_failure = [(''code'', Num 2), (''message'', Str ''Zig 0.1.0 is not supported by ZLS'')]"

definition sample_host :: "sample_version host" where
  "sample_host =
     \<lparr>cfg_path = None, cfg_enabled = On, cfg_debugLog = False,
      zig_getVersion = Returns (Some ((0, 13, 0), ''0.13.0'')),
      semver_raw = snd, semver_compare = sample_compare, new_SemVer = sample_new_SemVer,
      axios_get = (\<lambda>v. Inr sample_response), getHostZigName = ''x86_64-linux'',
      fsPath = (\<lambda>segments. ''/storage'' @ concat (map (\<lambda>s. ''/'' @ s) segments)),
      isWindows = False, existsSync = (\<lambda>p. True),
      downloadAndExtractArtifact = (\<lambda>dir artifact. True),
      getVersion = (\<lambda>p. Some ((0, 13, 0), ''0.13.0'')),
      languageClient_start = (\<lambda>p debugLog. StartedOk 2),
      client_stop = (\<lambda>c. None), client_dispose = (\<lambda>c. None)\<rparr>"

definition sample_world :: world where
  "sample_world = \<lparr>client = Some 1, globalState = Map.empty\<rparr>"

text \<open>
  Variations: the network is down (the query throws an \<open>Error\<close>), the service answers
  with its failure payload, the executable reports another version, the user configured a
  path, the new session fails to start.
\<close>

definition offline_host :: "sample_version host" where
  "offline_host = sample_host\<lparr>axios_get := (\<lambda>v. Inl (ErrorObj ''getaddrinfo ENOTFOUND''))\<rparr>"

definition unsupported_host :: "sample_version host" where
  "unsupported_host = sample_host\<lparr>axios_get := (\<lambda>v. Inr sample_failure)\<rparr>"

definition mismatch_host :: "sample_version host" where
  "mismatch_host = sample_host\<lparr>getVersion := (\<lambda>p. Some ((0, 12, 0), ''0.12.0''))\<rparr>"

definition override_host :: "sample_version host" where
  "override_host = mismatch_host\<lparr>cfg_path := Some ''/usr/local/bin/zls''\<rparr>"

definition failing_start_host :: "sample_version host" where
  "failing_start_host =
     sample_host\<lparr>languageClient_start := (\<lambda>p debugLog. StartRejected (ErrorObj ''spawn EACCES''))\<rparr>"

section \<open>Properties of the configuration middleware\<close>


lemma js_get_js_set: "js_get (js_set xs i v) j = (if j = i then v else js_get xs j)"
  by (auto simp: js_set_def js_get_def nth_append nth_list_update)

lemma forEach_items_Cons:
  "forEach_items cc k (p # ps) oi =
     (if truthy_section p then
        (p\<lparr>item_section := Some (rewritten cc p)\<rparr>
           # fst (forEach_items cc (Suc k) ps (AList.update (rewritten cc p) k oi)),
         snd (forEach_items cc (Suc k) ps (AList.update (rewritten cc p) k oi)))
      else (p # fst (forEach_items cc (Suc k) ps oi), snd (forEach_items cc (Suc k) ps oi)))"
  by (simp add: Let_def case_prod_beta rewritten_def)

lemma fst_forEach_items:
  "fst (forEach_items cc k items oi) =
     map (\<lambda>p. if truthy_section p then p\<lparr>item_section := Some (rewritten cc p)\<rparr> else p) items"
  by (induction items arbitrary: k oi) (simp_all add: forEach_items_Cons del: forEach_items.simps(2))

lemma map_of_forEach_items:
  "map_of (snd (forEach_items cc k items oi)) n =
     (case last_index cc k items n of Some j \<Rightarrow> Some j | None \<Rightarrow> map_of oi n)"
  by (induction items arbitrary: k oi)
     (auto simp: forEach_items_Cons update_conv' simp del: forEach_items.simps(2) split: option.splits)

lemma distinct_forEach_items:
  "distinct (map fst oi) \<Longrightarrow> distinct (map fst (snd (forEach_items cc k items oi)))"
  by (induction items arbitrary: k oi)
     (simp_all add: forEach_items_Cons distinct_update del: forEach_items.simps(2))

lemma last_index_NoneD:
  "last_index cc k items n = None \<Longrightarrow> m < length items \<Longrightarrow> truthy_section (items ! m) \<Longrightarrow>
     rewritten cc (items ! m) \<noteq> n"
proof (induction items arbitrary: k m)
  case Nil
  then show ?case by simp
next
  case (Cons p ps)
  from Cons.prems(1) have tl: "last_index cc (Suc k) ps n = None"
    and hd: "\<not> (truthy_section p \<and> rewritten cc p = n)"
    by (auto split: option.splits if_splits)
  show ?case
  proof (cases m)
    case 0
    with hd Cons.prems(3) show ?thesis by auto
  next
    case (Suc m')
    with Cons.prems Cons.IH [OF tl, of m'] show ?thesis by simp
  qed
qed

lemma last_index_SomeD:
  "last_index cc k items n = Some j \<Longrightarrow>
     k \<le> j \<and> j < k + length items \<and> truthy_section (items ! (j - k)) \<and>
     rewritten cc (items ! (j - k)) = n \<and>
     (\<forall>m. j - k < m \<and> m < length items \<and> truthy_section (items ! m) \<longrightarrow>
          rewritten cc (items ! m) \<noteq> n)"
proof (induction items arbitrary: k)
  case Nil
  then show ?case by simp
next
  case (Cons p ps)
  show ?case
  proof (cases "last_index cc (Suc k) ps n")
    case None
    with Cons.prems have j: "j = k" and p: "truthy_section p" "rewritten cc p = n"
      by (auto split: if_splits)
    have later: "rewritten cc ((p # ps) ! m) \<noteq> n"
      if "0 < m" "m < length (p # ps)" "truthy_section ((p # ps) ! m)" for m
    proof -
      from that obtain m' where m': "m = Suc m'" by (cases m) auto
      with that last_index_NoneD [OF None, of m'] show ?thesis by simp
    qed
    show ?thesis using j p later by auto
  next
    case (Some j')
    with Cons.prems have jj: "j' = j" by simp
    from Cons.IH [OF Some [unfolded jj]]
    have ih: "Suc k \<le> j" "j < Suc k + length ps" "truthy_section (ps ! (j - Suc k))"
      "rewritten cc (ps ! (j - Suc k)) = n"
      "\<And>m. j - Suc k < m \<Longrightarrow> m < length ps \<Longrightarrow> truthy_section (ps ! m) \<Longrightarrow>
          rewritten cc (ps ! m) \<noteq> n"
      by auto
    from ih(1) obtain d where d: "j - k = Suc d" "j - Suc k = d"
      by (cases "j - k") auto
    have later: "rewritten cc ((p # ps) ! m) \<noteq> n"
      if "j - k < m" "m < length (p # ps)" "truthy_section ((p # ps) ! m)" for m
    proof -
      from that d obtain m' where m': "m = Suc m'" by (cases m) auto
      with that d ih(5) [of m'] show ?thesis by simp
    qed
    show ?thesis using ih(1-4) d later by auto
  qed
qed


lemma last_index_last:
  assumes "i < length items" "truthy_section (items ! i)"
    and "\<forall>m. i < m \<and> m < length items \<and> truthy_section (items ! m) \<longrightarrow>
           rewritten cc (items ! m) \<noteq> rewritten cc (items ! i)"
  shows "last_index cc k items (rewritten cc (items ! i)) = Some (k + i)"
proof (cases "last_index cc k items (rewritten cc (items ! i))")
  case None
  from last_index_NoneD [OF None assms(1,2)] show ?thesis by simp
next
  case (Some j)
  note D = last_index_SomeD [OF Some]
  have "\<not> j - k < i" using D assms(1,2) by blast
  moreover have "\<not> i < j - k" using D assms(3) by auto
  ultimately show ?thesis using Some D by auto
qed

lemma distinct_optionIndices_of: "distinct (map fst (optionIndices_of E items))"
  by (simp add: optionIndices_of_def distinct_forEach_items)

lemma map_of_optionIndices_of:
  "map_of (optionIndices_of E items) n = last_index (camelCase E) 0 items n"
  by (simp add: optionIndices_of_def map_of_forEach_items split: option.splits)

lemma recorded_iff:
  "(n, i) \<in> set (optionIndices_of E items) \<longleftrightarrow> last_index (camelCase E) 0 items n = Some i"
  using distinct_optionIndices_of [of E items] map_of_optionIndices_of [of E items n]
  by (metis map_of_eq_Some_iff)

lemma recordedD:
  assumes "(n, i) \<in> set (optionIndices_of E items)"
  shows "i < length items" "truthy_section (items ! i)" "rewritten (camelCase E) (items ! i) = n"
    "\<And>m. i < m \<Longrightarrow> m < length items \<Longrightarrow> truthy_section (items ! m) \<Longrightarrow>
        rewritten (camelCase E) (items ! m) \<noteq> n"
  using last_index_SomeD [OF assms [unfolded recorded_iff]] by auto










lemma configurationMiddleware_Inl:
  "next (params_of E items) = Inl err \<Longrightarrow> configurationMiddleware E items next = (Inl err, [])"
  by (simp add: configurationMiddleware_def params_of_def case_prod_beta)

lemma configurationMiddleware_Inr:
  "next (params_of E items) = Inr r \<Longrightarrow>
     configurationMiddleware E items next =
       (Inr (fst (additional_loop E (optionIndices_of E items) (additionalOptions E)
                (inject_zig_path E (optionIndices_of E items)
                   (normalize_loop E (optionIndices_of E items) r), []))),
        snd (additional_loop E (optionIndices_of E items) (additionalOptions E)
                (inject_zig_path E (optionIndices_of E items)
                   (normalize_loop E (optionIndices_of E items) r), [])))"
  by (simp add: configurationMiddleware_def params_of_def optionIndices_of_def case_prod_beta Let_def)






lemma recorded_name_unique:
  "(n, i) \<in> set (optionIndices_of E items) \<Longrightarrow> (n', i) \<in> set (optionIndices_of E items) \<Longrightarrow>
     n' = n"
  using recordedD(3) by blast












text \<open>
  Claim C8. An item with a (non-empty) section reaches the continuation with the section
  \<open>zig.path\<close> when it was the legacy alias \<open>zls.zig_exe_path\<close>, and otherwise with
  \<open>zig.zls.\<close> followed by the camel-case form of the section without its first four
  characters.
\<close>

theorem section_rewriting:
  assumes "i < length items" and "item_section (items ! i) = Some s" and "s \<noteq> []"
  shows "item_section (params_of E items ! i) =
           Some (if s = ''zls.zig_exe_path'' then ''zig.path''
                 else ''zig.zls.'' @ camelCase E (drop 4 s))"
  using assms
  by (simp add: params_of_def fst_forEach_items truthy_section_def rewritten_def
      rewrite_section_def)


text \<open>
  Claim C2. An additional option that meets no declared setting should be written into
  the slot of the section the server asked for, also when that section is the first item
  of the request. The test \<open>!optionIndex\<close> of line 223 takes the recorded index 0 for
  "not requested": with the single item \<open>zls.foo\<close> and the additional option
  \<open>zig.zls.foo = 1\<close> the response keeps the continuation's \<open>null\<close>, while the same
  option requested at index 1 is applied.
\<close>

theorem additional_option_at_index_0:
  "configurationMiddleware sample_env [sample_item ''zls.foo''] sample_next = (Inr [Null], [])"
  by code_simp

lemma additional_option_at_index_1:
  "configurationMiddleware sample_env [sample_item ''zls.bar'', sample_item ''zls.foo''] sample_next
     = (Inr [Null, Num 1], [])"
  by code_simp

theorem section_rewriting_witness:
  "0 < length [sample_item ''zls.foo''] \<and>
   item_section ([sample_item ''zls.foo''] ! 0) = Some ''zls.foo'' \<and>
   ''zls.foo'' \<noteq> [] \<and>
   item_section (params_of sample_env [sample_item ''zls.foo''] ! 0)
     = Some ''zig.zls.foo''"
  using section_rewriting [of 0 "[sample_item ''zls.foo'']" "''zls.foo''"
      sample_env]
  by (simp add: sample_item_def sample_env_def)


lemma rewrite_section_zig_path:
  "rewrite_section cc s = ''zig.path'' \<longleftrightarrow> s = ''zls.zig_exe_path''"
  by (simp add: rewrite_section_def)

lemma apply_option_other:
  "map_of oi n \<noteq> Some j \<Longrightarrow> js_get (apply_option oi n v r) j = js_get r j"
  by (auto simp: apply_option_def js_get_js_set split: option.splits)

lemma additional_loop_other:
  "\<forall>n \<in> fst ` set ao. map_of oi n \<noteq> Some j \<Longrightarrow>
     js_get (fst (additional_loop E oi ao (r, effs))) j = js_get r j"
  by (induction ao arbitrary: r effs)
     (auto simp: Let_def apply_option_other split: answer.splits)

lemma inject_at_recorded_index:
  "map_of oi ''zig.path'' = Some i \<Longrightarrow>
     js_get (inject_zig_path E oi r) i = (case getZigPath E of Some p \<Rightarrow> Str p | None \<Rightarrow> Null)"
  by (simp add: inject_zig_path_def js_get_js_set split: option.splits)

text \<open>
  Claim C7, as the code has it. When the continuation returns no error, the legacy alias
  \<open>zls.zig_exe_path\<close> is an item of the request and no additional option is named
  \<open>zig.path\<close>, the slot at the index of the last alias item holds the discovered
  compiler path, or \<open>null\<close> when discovery throws; the middleware returns the response
  and no error.
\<close>

theorem zig_path_slot:
  assumes "next (params_of E items) = Inr r"
    and "i < length items" and "item_section (items ! i) = Some ''zls.zig_exe_path''"
    and "\<forall>m. i < m \<and> m < length items \<longrightarrow> item_section (items ! m) \<noteq> Some ''zls.zig_exe_path''"
    and "''zig.path'' \<notin> fst ` set (additionalOptions E)"
  shows "\<exists>res. fst (configurationMiddleware E items next) = Inr res \<and>
           js_get res i = (case getZigPath E of Some p \<Rightarrow> Str p | None \<Rightarrow> Null)"
proof -
  let ?cc = "camelCase E" and ?oi = "optionIndices_of E items"
  have t: "truthy_section (items ! i)" using assms(3) by (simp add: truthy_section_def)
  have n: "rewritten ?cc (items ! i) = ''zig.path''"
    using assms(3) by (simp add: rewritten_def rewrite_section_def)
  have later: "\<forall>m. i < m \<and> m < length items \<and> truthy_section (items ! m) \<longrightarrow>
           rewritten ?cc (items ! m) \<noteq> rewritten ?cc (items ! i)"
  proof (intro allI impI)
    fix m assume m: "i < m \<and> m < length items \<and> truthy_section (items ! m)"
    then obtain s where s: "item_section (items ! m) = Some s"
      by (auto simp: truthy_section_def split: option.splits)
    with m assms(4) have "s \<noteq> ''zls.zig_exe_path''" by auto
    with s show "rewritten ?cc (items ! m) \<noteq> rewritten ?cc (items ! i)"
      unfolding n by (simp add: rewritten_def rewrite_section_zig_path)
  qed
  from last_index_last [OF assms(2) t later, of 0]
  have rec: "map_of ?oi ''zig.path'' = Some i"
    by (simp add: map_of_optionIndices_of n)
  have "\<forall>k \<in> fst ` set (additionalOptions E). map_of ?oi k \<noteq> Some i"
  proof
    fix k assume k: "k \<in> fst ` set (additionalOptions E)"
    show "map_of ?oi k \<noteq> Some i"
    proof
      assume "map_of ?oi k = Some i"
      then have "(k, i) \<in> set ?oi" by (rule map_of_SomeD)
      from recordedD(3) [OF this] n have "k = ''zig.path''" by simp
      with k assms(5) show False by simp
    qed
  qed
  from additional_loop_other [OF this]
  have "js_get (fst (additional_loop E ?oi (additionalOptions E)
           (inject_zig_path E ?oi (normalize_loop E ?oi r), []))) i
        = (case getZigPath E of Some p \<Rightarrow> Str p | None \<Rightarrow> Null)"
    by (simp add: inject_at_recorded_index [OF rec])
  with assms(1) show ?thesis by (simp add: configurationMiddleware_Inr)
qed

text \<open>
  An additional option named \<open>zig.path\<close> is recorded under the same name as the alias:
  the loop over the additional options writes its raw value over the discovered path.
\<close>

theorem zig_path_slot_overridden:
  "item_section ([sample_item ''zls.foo'', sample_item ''zls.zig_exe_path''] ! 1)
     = Some ''zls.zig_exe_path'' \<and>
   getZigPath override_env = Some ''/usr/bin/zig'' \<and>
   configurationMiddleware override_env
     [sample_item ''zls.foo'', sample_item ''zls.zig_exe_path''] sample_next
     = (Inr [Null, Str ''/opt/zig''], [])"
  by code_simp

theorem zig_path_slot_witness:
  "sample_next (params_of sample_env [sample_item ''zls.foo'', sample_item ''zls.zig_exe_path''])
     = Inr [Null, Null] \<and>
   1 < length [sample_item ''zls.foo'', sample_item ''zls.zig_exe_path''] \<and>
   item_section ([sample_item ''zls.foo'', sample_item ''zls.zig_exe_path''] ! 1)
     = Some ''zls.zig_exe_path'' \<and>
   ''zig.path'' \<notin> fst ` set (additionalOptions sample_env) \<and>
   (\<exists>res. fst (configurationMiddleware sample_env
        [sample_item ''zls.foo'', sample_item ''zls.zig_exe_path''] sample_next) = Inr res \<and>
      js_get res 1 = Str ''/usr/bin/zig'')"
proof -
  let ?items = "[sample_item ''zls.foo'', sample_item ''zls.zig_exe_path'']"
  have h1: "sample_next (params_of sample_env ?items) = Inr [Null, Null]" by code_simp
  have h2: "1 < length ?items" by simp
  have h3: "item_section (?items ! 1) = Some ''zls.zig_exe_path''" by code_simp
  have h4: "\<forall>m. 1 < m \<and> m < length ?items \<longrightarrow>
              item_section (?items ! m) \<noteq> Some ''zls.zig_exe_path''"
  proof (intro allI impI)
    fix m :: nat
    assume "1 < m \<and> m < length ?items"
    then have False by auto
    then show "item_section (?items ! m) \<noteq> Some ''zls.zig_exe_path''" ..
  qed
  have h5: "''zig.path'' \<notin> fst ` set (additionalOptions sample_env)"
    by (simp add: sample_env_def)
  have g: "getZigPath sample_env = Some ''/usr/bin/zig''" by (simp add: sample_env_def)
  show ?thesis
    using h1 h2 h3 h5
      zig_path_slot [of sample_next sample_env ?items "[Null, Null]" 1, OF h1 h2 h3 h4 h5]
    by (simp add: g)
qed

lemma prompts_append: "prompts (xs @ ys) = prompts xs @ prompts ys"
  by (induction xs rule: prompts.induct) simp_all

lemma additional_loop_prompts:
  "prompts (snd (additional_loop E oi ao (r, effs))) =
     prompts effs @ map fst (filter (\<lambda>(n, v). has_default E (drop 8 n)) ao)"
  by (induction ao arbitrary: r effs)
     (auto simp: Let_def prompts_append split: answer.splits)

lemma additional_loop_writes:
  "e \<in> set (snd (additional_loop E oi ao (r, effs))) \<Longrightarrow> is_store_write e \<Longrightarrow>
     e \<in> set effs \<or>
     (\<exists>n v. (n, v) \<in> set ao \<and> has_default E (drop 8 n) \<and> answer E n = UseInstead \<and>
        (e = UpdateSetting (drop 8 n) v \<or>
         e = UpdateAdditionalOptions (AList.delete n (additionalOptions E))))"
proof (induction ao arbitrary: r effs)
  case Nil
  then show ?case by simp
next
  case (Cons a ao)
  obtain n v where a: "a = (n, v)" by (cases a)
  show ?case
  proof (cases "has_default E (drop 8 n)")
    case False
    with Cons.prems a have "e \<in> set (snd (additional_loop E oi ao (apply_option oi n v r, effs)))"
      by (simp add: Let_def)
    from Cons.IH [OF this Cons.prems(2)] show ?thesis by auto
  next
    case True
    show ?thesis
    proof (cases "answer E n")
      case UseInstead
      with True Cons.prems a
      have "e \<in> set (snd (additional_loop E oi ao (apply_option oi n v r,
               effs @ [ShowConflictWarning n,
                 UpdateAdditionalOptions (AList.delete n (additionalOptions E)),
                 UpdateSetting (drop 8 n) v])))"
        by (simp add: Let_def)
      from Cons.IH [OF this Cons.prems(2)] Cons.prems(2) True UseInstead a show ?thesis
        by auto
    next
      case ShowAdditionalOptions
      with True Cons.prems a
      have "e \<in> set (snd (additional_loop E oi ao
               (r, effs @ [ShowConflictWarning n, OpenSettingsJson])))"
        by (simp add: Let_def)
      from Cons.IH [OF this Cons.prems(2)] Cons.prems(2) show ?thesis by auto
    next
      case Dismissed
      with True Cons.prems a
      have "e \<in> set (snd (additional_loop E oi ao (r, effs @ [ShowConflictWarning n])))"
        by (simp add: Let_def)
      from Cons.IH [OF this Cons.prems(2)] Cons.prems(2) show ?thesis by auto
    qed
  qed
qed

lemma additional_loop_no_conflict:
  "filter (\<lambda>(n, v). has_default E (drop 8 n)) ao = [] \<Longrightarrow>
     snd (additional_loop E oi ao (r, effs)) = effs"
  by (induction ao arbitrary: r effs) (auto simp: Let_def split: if_splits)

lemma additional_loop_filter:
  assumes "has_default E' = has_default E" and "answer E' = answer E"
  shows "fst (additional_loop E oi ao (r, effs)) =
         fst (additional_loop E' oi (filter (reaches_response E) ao) (r, effs'))"
  using assms
  by (induction ao arbitrary: r effs effs')
     (auto simp: Let_def reaches_response_def split: answer.splits)

lemma params_of_additionalOptions [simp]:
  "params_of (E\<lparr>additionalOptions := ao\<rparr>) items = params_of E items"
  by (simp add: params_of_def)

lemma optionIndices_of_additionalOptions [simp]:
  "optionIndices_of (E\<lparr>additionalOptions := ao\<rparr>) items = optionIndices_of E items"
  by (simp add: optionIndices_of_def)

lemma normalize_loop_additionalOptions [simp]:
  "normalize_loop (E\<lparr>additionalOptions := ao\<rparr>) oi r = normalize_loop E oi r"
  by (induction oi arbitrary: r) (auto simp: Let_def split: lspany.splits)

lemma inject_zig_path_additionalOptions [simp]:
  "inject_zig_path (E\<lparr>additionalOptions := ao\<rparr>) oi r = inject_zig_path E oi r"
  by (simp add: inject_zig_path_def split: option.splits)

text \<open>
  Claim C5. In an exchange whose continuation returns no error, the warnings shown are
  exactly the additional options that meet a setting with a declared default, one warning
  each, in the order of the map. A write to the settings store happens only for such an
  entry and only after the user chose \<open>Use ... instead\<close> for it, and it is computed
  from that entry alone; without a conflict there is no effect at all. The response is
  the one the middleware gives when the conflicting entries the user did not migrate are
  taken out of the map: their values never reach a slot.
\<close>

theorem conflicts_prompt_the_user:
  assumes "next (params_of E items) = Inr r"
  shows "prompts (snd (configurationMiddleware E items next)) = map fst (conflicts E) \<and>
    (\<forall>e \<in> set (snd (configurationMiddleware E items next)). is_store_write e \<longrightarrow>
       (\<exists>n v. (n, v) \<in> set (conflicts E) \<and> answer E n = UseInstead \<and>
          (e = UpdateSetting (drop 8 n) v \<or>
           e = UpdateAdditionalOptions (AList.delete n (additionalOptions E))))) \<and>
    (conflicts E = [] \<longrightarrow> snd (configurationMiddleware E items next) = []) \<and>
    fst (configurationMiddleware E items next) =
      fst (configurationMiddleware
             (E\<lparr>additionalOptions := filter (reaches_response E) (additionalOptions E)\<rparr>)
             items next)"
proof (intro conjI ballI impI)
  show "prompts (snd (configurationMiddleware E items next)) = map fst (conflicts E)"
    using assms
    by (simp add: configurationMiddleware_Inr additional_loop_prompts conflicts_def)
next
  fix e
  assume e: "e \<in> set (snd (configurationMiddleware E items next))" and w: "is_store_write e"
  from e assms
  have "e \<in> set (snd (additional_loop E (optionIndices_of E items) (additionalOptions E)
          (inject_zig_path E (optionIndices_of E items)
             (normalize_loop E (optionIndices_of E items) r), [])))"
    by (simp add: configurationMiddleware_Inr)
  from additional_loop_writes [OF this w]
  show "\<exists>n v. (n, v) \<in> set (conflicts E) \<and> answer E n = UseInstead \<and>
          (e = UpdateSetting (drop 8 n) v \<or>
           e = UpdateAdditionalOptions (AList.delete n (additionalOptions E)))"
    by (auto simp: conflicts_def)
next
  assume "conflicts E = []"
  with assms show "snd (configurationMiddleware E items next) = []"
    by (simp add: configurationMiddleware_Inr additional_loop_no_conflict conflicts_def)
next
  let ?E' = "E\<lparr>additionalOptions := filter (reaches_response E) (additionalOptions E)\<rparr>"
  have "next (params_of ?E' items) = Inr r" using assms by simp
  from configurationMiddleware_Inr [of "next" ?E' items r, OF this]
    configurationMiddleware_Inr [of "next" E items r, OF assms]
  show "fst (configurationMiddleware E items next) = fst (configurationMiddleware ?E' items next)"
    using additional_loop_filter [of ?E' E]
    by simp
qed

theorem conflicts_prompt_the_user_witness:
  "sample_next (params_of conflict_env [sample_item ''zls.bar'', sample_item ''zls.foo''])
     = Inr [Null, Null] \<and>
   conflicts conflict_env = [(''zig.zls.foo'', Num 1)] \<and>
   prompts (snd (configurationMiddleware conflict_env
      [sample_item ''zls.bar'', sample_item ''zls.foo''] sample_next)) = [''zig.zls.foo''] \<and>
   configurationMiddleware conflict_env
      [sample_item ''zls.bar'', sample_item ''zls.foo''] sample_next
     = (Inr [Null, Null], [ShowConflictWarning ''zig.zls.foo''])"
proof -
  let ?items = "[sample_item ''zls.bar'', sample_item ''zls.foo'']"
  have h1: "sample_next (params_of conflict_env ?items) = Inr [Null, Null]" by code_simp
  have c: "conflicts conflict_env = [(''zig.zls.foo'', Num 1)]" by code_simp
  have m: "configurationMiddleware conflict_env ?items sample_next
     = (Inr [Null, Null], [ShowConflictWarning ''zig.zls.foo''])" by code_simp
  from conflicts_prompt_the_user [of sample_next conflict_env ?items "[Null, Null]", OF h1]
  have "prompts (snd (configurationMiddleware conflict_env ?items sample_next))
     = map fst (conflicts conflict_env)" by blast
  with h1 c m show ?thesis by simp
qed

section \<open>Properties of the version resolver\<close>

lemma select_artifact_axios_get [simp]:
  "select_artifact (H\<lparr>axios_get := f\<rparr>) response = select_artifact H response"
  by (simp add: select_artifact_def Let_def split: sum.splits)

lemma cacheKey_axios_get [simp]: "cacheKey (H\<lparr>axios_get := f\<rparr>) v = cacheKey H v"
  by (simp add: cacheKey_def)

lemma fetchVersion_failed:
  "axios_get H (semver_raw H zigVersion) = Inl err \<Longrightarrow>
     fetchVersion H w zigVersion True =
       (case globalState w (cacheKey H zigVersion) of
          Some response \<Rightarrow> (fst (select_artifact H response), w, snd (select_artifact H response))
        | None \<Rightarrow>
            (case err of
               ErrorObj m \<Rightarrow> (Returns None, w, [ErrFailedToQuery m])
             | OtherThrown x \<Rightarrow> (Throws err, w, [])))"
  by (simp add: fetchVersion_def Let_def case_prod_beta split: option.splits thrown.splits)

lemma fetchVersion_answered:
  "axios_get H (semver_raw H zigVersion) = Inr data \<Longrightarrow>
     fetchVersion H w zigVersion True =
       (fst (select_artifact H data),
        w\<lparr>globalState := (globalState w)(cacheKey H zigVersion \<mapsto> data)\<rparr>,
        snd (select_artifact H data))"
  by (simp add: fetchVersion_def Let_def case_prod_beta)

text \<open>
  Line 301: with nothing in the cache, a thrown value that is no \<open>Error\<close> is thrown
  again; nothing is shown and nothing is returned.
\<close>

lemma fetchVersion_rethrows_other:
  "axios_get H (semver_raw H zigVersion) = Inl (OtherThrown x) \<Longrightarrow>
   globalState w (cacheKey H zigVersion) = None \<Longrightarrow>
     fetchVersion H w zigVersion True = (Throws (OtherThrown x), w, [])"
  by (simp add: fetchVersion_failed)

text \<open>
  Claim C4. Let the query fail, that is, let \<open>axios.get\<close> reject with an \<open>Error\<close>. When
  the cache holds a response under the key of that compiler version, \<open>fetchVersion\<close>
  (with \<open>useCache\<close>) goes on with exactly that response: its result, its messages and the
  unchanged store are those of a successful query answered with the cached response. When
  the cache holds nothing under the key, the error is reported to the user
  (\<open>Failed to query ZLS version\<close>) and the result is \<open>null\<close>.
\<close>

theorem cache_fallback:
  assumes "axios_get H (semver_raw H zigVersion) = Inl (ErrorObj m)"
  shows "(\<forall>response. globalState w (cacheKey H zigVersion) = Some response \<longrightarrow>
            fetchVersion H w zigVersion True =
              (fst (select_artifact H response), w, snd (select_artifact H response)) \<and>
            fetchVersion H w zigVersion True =
              fetchVersion (H\<lparr>axios_get := (\<lambda>v. Inr response)\<rparr>) w zigVersion True) \<and>
         (globalState w (cacheKey H zigVersion) = None \<longrightarrow>
            fetchVersion H w zigVersion True = (Returns None, w, [ErrFailedToQuery m]))"
proof (intro conjI allI impI)
  fix response
  assume c: "globalState w (cacheKey H zigVersion) = Some response"
  show a: "fetchVersion H w zigVersion True =
      (fst (select_artifact H response), w, snd (select_artifact H response))"
    using assms c by (simp add: fetchVersion_failed)
  have "(globalState w)(cacheKey H zigVersion \<mapsto> response) = globalState w"
    using c by (rule map_upd_triv)
  then have "w\<lparr>globalState := (globalState w)(cacheKey H zigVersion \<mapsto> response)\<rparr> = w"
    by simp
  then show "fetchVersion H w zigVersion True =
      fetchVersion (H\<lparr>axios_get := (\<lambda>v. Inr response)\<rparr>) w zigVersion True"
    using a fetchVersion_answered [of "H\<lparr>axios_get := (\<lambda>v. Inr response)\<rparr>" zigVersion response w]
    by simp
next
  assume "globalState w (cacheKey H zigVersion) = None"
  with assms show "fetchVersion H w zigVersion True = (Returns None, w, [ErrFailedToQuery m])"
    by (simp add: fetchVersion_failed)
qed

theorem cache_fallback_witness:
  "axios_get offline_host (semver_raw offline_host ((0, 13, 0), ''0.13.0''))
     = Inl (ErrorObj ''getaddrinfo ENOTFOUND'') \<and>
   globalState (sample_world\<lparr>globalState := [''zls-select-version-0.13.0'' \<mapsto> sample_response]\<rparr>)
     (cacheKey offline_host ((0, 13, 0), ''0.13.0'')) = Some sample_response \<and>
   fst (fetchVersion offline_host
          (sample_world\<lparr>globalState := [''zls-select-version-0.13.0'' \<mapsto> sample_response]\<rparr>)
          ((0, 13, 0), ''0.13.0'') True)
     = Returns (Some (((0, 13, 0), ''0.13.0''), js_prop sample_response ''x86_64-linux'')) \<and>
   globalState sample_world (cacheKey offline_host ((0, 13, 0), ''0.13.0'')) = None \<and>
   fetchVersion offline_host sample_world ((0, 13, 0), ''0.13.0'') True
     = (Returns None, sample_world, [ErrFailedToQuery ''getaddrinfo ENOTFOUND''])"
proof -
  let ?v = "((0, 13, 0), ''0.13.0'') :: sample_version"
  let ?w = "sample_world\<lparr>globalState := [''zls-select-version-0.13.0'' \<mapsto> sample_response]\<rparr>"
  have h: "axios_get offline_host (semver_raw offline_host ?v)
     = Inl (ErrorObj ''getaddrinfo ENOTFOUND'')"
    by (simp add: offline_host_def)
  have c1: "globalState ?w (cacheKey offline_host ?v) = Some sample_response"
    by (simp add: cacheKey_def offline_host_def sample_host_def)
  have c2: "globalState sample_world (cacheKey offline_host ?v) = None"
    by (simp add: sample_world_def)
  have s: "select_artifact offline_host sample_response
     = (Returns (Some (?v, js_prop sample_response ''x86_64-linux'')), [])"
    by (simp add: select_artifact_def offline_host_def sample_host_def sample_response_def
        has_key_def js_prop_def sample_new_SemVer_def)
  from cache_fallback [OF h, of ?w] c1
  have a: "fetchVersion offline_host ?w ?v True =
      (fst (select_artifact offline_host sample_response), ?w,
       snd (select_artifact offline_host sample_response))"
    by blast
  from cache_fallback [OF h, of sample_world] c2
  have b: "fetchVersion offline_host sample_world ?v True
     = (Returns None, sample_world, [ErrFailedToQuery ''getaddrinfo ENOTFOUND''])"
    by blast
  show ?thesis using h c1 c2 a b s by simp
qed

text \<open>
  Claim C9. A failure payload (an object with a \<open>message\<close>) that a successful request
  returned is stored under the key of the compiler version before its shape is looked at;
  the call reports the message and returns \<open>null\<close>. A later call whose query throws
  finds that payload in the cache, reports the same message and returns \<open>null\<close>.
\<close>

theorem failure_payload_cached:
  assumes "axios_get H (semver_raw H zigVersion) = Inr data"
    and "has_key ''message'' data"
    and "later (semver_raw H zigVersion) = Inl err"
  shows "\<exists>w'. fetchVersion H w zigVersion True =
             (Returns None, w', [ErrUnableToFetch (js_prop data ''message'')]) \<and>
           globalState w' (cacheKey H zigVersion) = Some data \<and>
           fetchVersion (H\<lparr>axios_get := later\<rparr>) w' zigVersion True =
             (Returns None, w', [ErrUnableToFetch (js_prop data ''message'')])"
proof -
  let ?w' = "w\<lparr>globalState := (globalState w)(cacheKey H zigVersion \<mapsto> data)\<rparr>"
  have s: "select_artifact H data = (Returns None, [ErrUnableToFetch (js_prop data ''message'')])"
    using assms(2) by (simp add: select_artifact_def)
  have a: "fetchVersion H w zigVersion True =
      (Returns None, ?w', [ErrUnableToFetch (js_prop data ''message'')])"
    using assms(1) s by (simp add: fetchVersion_answered)
  have c: "globalState ?w' (cacheKey H zigVersion) = Some data" by simp
  have "axios_get (H\<lparr>axios_get := later\<rparr>) (semver_raw (H\<lparr>axios_get := later\<rparr>) zigVersion)
      = Inl err"
    using assms(3) by simp
  from fetchVersion_failed [OF this, of ?w']
  have b: "fetchVersion (H\<lparr>axios_get := later\<rparr>) ?w' zigVersion True =
      (Returns None, ?w', [ErrUnableToFetch (js_prop data ''message'')])"
    using s by simp
  from a b c show ?thesis by blast
qed

theorem failure_payload_cached_witness:
  "axios_get unsupported_host (semver_raw unsupported_host ((0, 1, 0), ''0.1.0''))
     = Inr sample_failure \<and>
   has_key ''message'' sample_failure \<and>
   (\<exists>w'. fetchVersion unsupported_host sample_world ((0, 1, 0), ''0.1.0'') True =
            (Returns None, w', [ErrUnableToFetch (Str ''Zig 0.1.0 is not supported by ZLS'')]) \<and>
          globalState w' ''zls-select-version-0.1.0'' = Some sample_failure \<and>
          fetchVersion offline_host w' ((0, 1, 0), ''0.1.0'') True =
            (Returns None, w', [ErrUnableToFetch (Str ''Zig 0.1.0 is not supported by ZLS'')]))"
proof -
  let ?v = "((0, 1, 0), ''0.1.0'') :: sample_version"
  have h1: "axios_get unsupported_host (semver_raw unsupported_host ?v) = Inr sample_failure"
    by (simp add: unsupported_host_def)
  have h2: "has_key ''message'' sample_failure"
    by (simp add: has_key_def sample_failure_def)
  have h3: "(\<lambda>v. Inl (ErrorObj ''getaddrinfo ENOTFOUND'') :: thrown + response)
      (semver_raw unsupported_host ?v) = Inl (ErrorObj ''getaddrinfo ENOTFOUND'')"
    by simp
  have e: "unsupported_host\<lparr>axios_get := (\<lambda>v. Inl (ErrorObj ''getaddrinfo ENOTFOUND''))\<rparr>
      = offline_host"
    by (simp add: unsupported_host_def offline_host_def)
  have k: "cacheKey unsupported_host ?v = ''zls-select-version-0.1.0''"
    by (simp add: cacheKey_def unsupported_host_def sample_host_def)
  have m: "js_prop sample_failure ''message'' = Str ''Zig 0.1.0 is not supported by ZLS''"
    by (simp add: js_prop_def sample_failure_def)
  show ?thesis
    using h1 h2 failure_payload_cached [OF h1 h2 h3, of sample_world]
    unfolding e k m by blast
qed

section \<open>Properties of the locator and the verifier\<close>

lemma select_artifact_messages: "\<forall>e \<in> set (snd (select_artifact H response)). is_message e"
  by (simp add: select_artifact_def Let_def split: sum.splits)

lemma fetchVersion_messages:
  "\<forall>e \<in> set (snd (snd (fetchVersion H w zigVersion useCache))). is_message e"
  using select_artifact_messages [of H]
  by (auto simp: fetchVersion_def Let_def case_prod_beta split: sum.splits option.splits thrown.splits)

lemma fetchVersion_client:
  "client (fst (snd (fetchVersion H w zigVersion useCache))) = client w"
  by (auto simp: fetchVersion_def Let_def case_prod_beta split: sum.splits option.splits thrown.splits)

lemma check_version_messages: "\<forall>e \<in> set (snd (check_version H p expected)). is_message e"
  by (simp add: check_version_def split: option.splits)

lemma getZLSPath_messages: "\<forall>e \<in> set (snd (snd (getZLSPath H w))). is_message e"
  using fetchVersion_messages [of H w _ True] check_version_messages [of H]
  by (auto simp: getZLSPath_def Let_def case_prod_beta
      split: outcome.splits option.splits prod.splits)

lemma getZLSPath_client: "client (fst (snd (getZLSPath H w))) = client w"
  using fetchVersion_client [of H w _ True]
  by (auto simp: getZLSPath_def Let_def case_prod_beta
      split: outcome.splits option.splits prod.splits)

lemma getZLSPath_configured:
  "truthy_str (cfg_path H) \<Longrightarrow>
     getZLSPath H w =
       (case getVersion H (the (cfg_path H)) of
          None \<Rightarrow> (Returns None, w, [ErrUnableToCheck (the (cfg_path H))])
        | Some checked \<Rightarrow> (Returns (Some (the (cfg_path H), checked)), w, []))"
  by (simp add: getZLSPath_def check_version_def split: option.splits)

lemma getZLSPath_resolved:
  assumes "\<not> truthy_str (cfg_path H)" and "cfg_enabled H = On"
    and "zig_getVersion H = Returns (Some zigVersion)"
    and "fetchVersion H w zigVersion True = (Returns (Some (version, artifact)), w', msgs)"
    and "exe = fsPath H [''zls'', semver_raw H version, if isWindows H then ''zls.exe'' else ''zls'']"
    and "existsSync H exe \<or>
         downloadAndExtractArtifact H (fsPath H [''zls'', semver_raw H version]) artifact"
  shows "getZLSPath H w =
       (case getVersion H exe of
          None \<Rightarrow> (Returns None, w', msgs @ [ErrUnableToCheck exe])
        | Some checked \<Rightarrow>
            if semver_compare H checked version \<noteq> 0
            then (Returns None, w', msgs @ [ErrUnexpectedVersion version exe checked])
            else (Returns (Some (exe, checked)), w', msgs))"
  using assms
  by (auto simp: getZLSPath_def check_version_def Let_def split: option.splits)

lemma restartClient_unlocated:
  assumes "fst (getZLSPath H w) = Returns None"
  shows "Started n \<notin> set (snd (snd (restartClient H w)))"
proof (cases "\<not> truthy_str (cfg_path H) \<and> cfg_enabled H \<noteq> On")
  case True
  then have "restartClient H w = stopClient H w" by (simp add: restartClient_def)
  then show ?thesis by (auto simp: stopClient_def split: option.splits)
next
  case False
  obtain w1 l1 where g: "getZLSPath H w = (Returns None, w1, l1)"
    using assms by (cases "getZLSPath H w") auto
  with False have "restartClient H w = (Returns (), w1, l1)"
    by (auto simp: restartClient_def)
  moreover have "\<forall>e \<in> set l1. is_message e"
    using getZLSPath_messages [of H w] g by simp
  ultimately show ?thesis by auto
qed

text \<open>
  Claim C6. With a configured path no version is expected: an executable whose version
  does not parse gives the error \<open>Unable to check ZLS version\<close> and \<open>null\<close>, and any
  version that parses is accepted. On the resolved path (nothing configured, ZLS enabled,
  a version resolved and the executable installed) the resolved version is the expected
  one: no parseable version gives the same error and \<open>null\<close>, a reported version that
  \<open>compare\<close> finds different from the expected one gives the error
  \<open>Encountered unexpected ZLS version\<close> and \<open>null\<close>, and otherwise the executable is
  returned with the reported version. Whenever the result is \<open>null\<close>,
  \<open>restartClient\<close> starts no session.
\<close>

theorem version_verifier:
  "(truthy_str (cfg_path H) \<longrightarrow>
      getZLSPath H w =
        (case getVersion H (the (cfg_path H)) of
           None \<Rightarrow> (Returns None, w, [ErrUnableToCheck (the (cfg_path H))])
         | Some checked \<Rightarrow> (Returns (Some (the (cfg_path H), checked)), w, []))) \<and>
   (\<not> truthy_str (cfg_path H) \<and> cfg_enabled H = On \<and>
    zig_getVersion H = Returns (Some zigVersion) \<and>
    fetchVersion H w zigVersion True = (Returns (Some (version, artifact)), w', msgs) \<and>
    exe = fsPath H [''zls'', semver_raw H version, if isWindows H then ''zls.exe'' else ''zls''] \<and>
    (existsSync H exe \<or>
       downloadAndExtractArtifact H (fsPath H [''zls'', semver_raw H version]) artifact) \<longrightarrow>
      getZLSPath H w =
        (case getVersion H exe of
           None \<Rightarrow> (Returns None, w', msgs @ [ErrUnableToCheck exe])
         | Some checked \<Rightarrow>
             if semver_compare H checked version \<noteq> 0
             then (Returns None, w', msgs @ [ErrUnexpectedVersion version exe checked])
             else (Returns (Some (exe, checked)), w', msgs))) \<and>
   (fst (getZLSPath H w) = Returns None \<longrightarrow>
      (\<forall>n. Started n \<notin> set (snd (snd (restartClient H w)))))"
  using getZLSPath_configured [of H w] getZLSPath_resolved [of H zigVersion w version artifact w' msgs exe]
    restartClient_unlocated [of H w]
  by blast


theorem version_verifier_witness:
  "truthy_str (cfg_path override_host) \<and>
   getZLSPath override_host sample_world =
     (Returns (Some (''/usr/local/bin/zls'', ((0, 12, 0), ''0.12.0''))), sample_world, []) \<and>
   \<not> truthy_str (cfg_path mismatch_host) \<and> cfg_enabled mismatch_host = On \<and>
   zig_getVersion mismatch_host = Returns (Some ((0, 13, 0), ''0.13.0'')) \<and>
   fst (fetchVersion mismatch_host sample_world ((0, 13, 0), ''0.13.0'') True) =
     Returns (Some (((0, 13, 0), ''0.13.0''), js_prop sample_response ''x86_64-linux'')) \<and>
   existsSync mismatch_host ''/storage/zls/0.13.0/zls'' \<and>
   fst (getZLSPath mismatch_host sample_world) = Returns None \<and>
   snd (snd (getZLSPath mismatch_host sample_world)) =
     [ErrUnexpectedVersion ((0, 13, 0), ''0.13.0'') ''/storage/zls/0.13.0/zls''
        ((0, 12, 0), ''0.12.0'')]"
proof -
  let ?v = "((0, 13, 0), ''0.13.0'') :: sample_version"
  let ?a = "js_prop sample_response ''x86_64-linux''"
  let ?w' = "sample_world\<lparr>globalState :=
      (globalState sample_world)(cacheKey mismatch_host ?v \<mapsto> sample_response)\<rparr>"
  let ?exe = "''/storage/zls/0.13.0/zls''"
  have o1: "truthy_str (cfg_path override_host)"
    by (simp add: override_host_def truthy_str_def)
  have o2: "getVersion override_host (the (cfg_path override_host)) = Some ((0, 12, 0), ''0.12.0'')"
    "the (cfg_path override_host) = ''/usr/local/bin/zls''"
    by (simp_all add: override_host_def mismatch_host_def)
  have m1: "\<not> truthy_str (cfg_path mismatch_host)"
    by (simp add: mismatch_host_def sample_host_def truthy_str_def)
  have m2: "cfg_enabled mismatch_host = On"
    by (simp add: mismatch_host_def sample_host_def)
  have m3: "zig_getVersion mismatch_host = Returns (Some ?v)"
    by (simp add: mismatch_host_def sample_host_def)
  have m4: "fetchVersion mismatch_host sample_world ?v True = (Returns (Some (?v, ?a)), ?w', [])"
    by (simp add: fetchVersion_def select_artifact_def mismatch_host_def sample_host_def
        sample_response_def has_key_def js_prop_def sample_new_SemVer_def Let_def)
  have m5: "?exe = fsPath mismatch_host [''zls'', semver_raw mismatch_host ?v,
      if isWindows mismatch_host then ''zls.exe'' else ''zls'']"
    by (simp add: mismatch_host_def sample_host_def)
  have m6: "existsSync mismatch_host ?exe"
    by (simp add: mismatch_host_def sample_host_def)
  have m7: "getVersion mismatch_host ?exe = Some ((0, 12, 0), ''0.12.0'')"
    by (simp add: mismatch_host_def)
  have m8: "semver_compare mismatch_host ((0, 12, 0), ''0.12.0'') ?v \<noteq> 0"
    by (simp add: mismatch_host_def sample_host_def sample_compare_def)
  note V = version_verifier [of override_host sample_world]
    version_verifier [of mismatch_host sample_world ?v ?v ?a ?w' "[]" ?exe]
  from V(1) o1 o2 have a: "getZLSPath override_host sample_world =
     (Returns (Some (''/usr/local/bin/zls'', ((0, 12, 0), ''0.12.0''))), sample_world, [])"
    by simp
  from V(2) m1 m2 m3 m4 m5 m6 have "getZLSPath mismatch_host sample_world =
     (case getVersion mismatch_host ?exe of
        None \<Rightarrow> (Returns None, ?w', [] @ [ErrUnableToCheck ?exe])
      | Some checked \<Rightarrow>
          if semver_compare mismatch_host checked ?v \<noteq> 0
          then (Returns None, ?w', [] @ [ErrUnexpectedVersion ?v ?exe checked])
          else (Returns (Some (?exe, checked)), ?w', []))"
    by blast
  with m7 m8 have b: "getZLSPath mismatch_host sample_world =
     (Returns None, ?w', [ErrUnexpectedVersion ?v ?exe ((0, 12, 0), ''0.12.0'')])"
    by simp
  show ?thesis using o1 a m1 m2 m3 m4 m6 b by simp
qed

section \<open>Properties of the session life cycle\<close>

lemma live_after_append: "live_after live (xs @ ys) = live_after (live_after live xs) ys"
  by (induction live xs rule: live_after.induct) simp_all

lemma live_after_messages: "\<forall>e \<in> set l. is_message e \<Longrightarrow> live_after live l = live"
  by (induction live l rule: live_after.induct) simp_all

lemma getZLSPath_Some_enabled:
  "getZLSPath H w = (Returns (Some r), w1, l1) \<Longrightarrow>
     truthy_str (cfg_path H) \<or> cfg_enabled H = On"
  by (auto simp: getZLSPath_def split: if_splits)

lemma restartClient_located:
  assumes "getZLSPath H w = (Returns (Some (exe, version)), w1, l1)"
  shows "restartClient H w =
     (case startClient H exe of
        (Throws reason, l2) \<Rightarrow> (Returns (), w1, l1 @ l2 @ [warning_for reason])
      | (Returns newClient, l2) \<Rightarrow>
          (case stopClient H w1 of
             (Throws reason, w2, l3) \<Rightarrow> (Returns (), w2, l1 @ l2 @ l3 @ [warning_for reason])
           | (Returns u, w2, l3) \<Rightarrow>
               (Returns (), w2\<lparr>client := Some newClient\<rparr>, l1 @ l2 @ l3)))"
proof -
  from getZLSPath_Some_enabled [OF assms]
  show ?thesis
  proof
    assume "truthy_str (cfg_path H)"
    then show ?thesis using assms by (simp add: restartClient_def)
  next
    assume "cfg_enabled H = On"
    then show ?thesis using assms by (simp add: restartClient_def)
  qed
qed

lemma live_during_handover:
  assumes "\<forall>e \<in> set l1. is_message e" and "k \<le> length (l1 @ [Started n, Stopped old, Disposed old])"
  shows "live_after [old] (take k (l1 @ [Started n, Stopped old, Disposed old])) \<noteq> []"
proof (cases "k \<le> length l1")
  case True
  then have "\<forall>e \<in> set (take k l1). is_message e"
    using assms(1) by (auto dest: in_set_takeD)
  with True show ?thesis by (simp add: live_after_messages)
next
  case False
  then obtain j where j: "k = length l1 + Suc j" "j \<le> 2"
    using assms(2) by (auto simp: not_le less_iff_Suc_add)
  then consider "j = 0" | "j = 1" | "j = 2" by linarith
  then show ?thesis
    using j assms(1)
    by cases (auto simp: live_after_append live_after_messages take_Cons' numeral_2_eq_2)
qed

text \<open>
  Claim C3. Let the locator return an executable. If the new session starts and the old
  one (the one in the handle) stops and is disposed without an error, the session events
  of \<open>restartClient\<close> are: new session started, old session stopped, old session
  disposed; the handle ends at the new session, and after every prefix of the events at
  least one session is live. If starting the new session throws, \<open>restartClient\<close>
  returns normally, the handle is the one from before, no session was stopped or disposed,
  and the warning \<open>Failed to run Zig Language Server (ZLS)\<close> is among the events.
\<close>

theorem restart_order:
  assumes "getZLSPath H w = (Returns (Some (exe, version)), w1, l1)"
  shows "(languageClient_start H exe (cfg_debugLog H) = StartedOk n \<and> client w = Some old \<and>
          client_stop H old = None \<and> client_dispose H old = None \<longrightarrow>
            restartClient H w =
              (Returns (), w1\<lparr>client := Some n\<rparr>, l1 @ [Started n, Stopped old, Disposed old]) \<and>
            (\<forall>k \<le> length (l1 @ [Started n, Stopped old, Disposed old]).
               live_after [old] (take k (l1 @ [Started n, Stopped old, Disposed old])) \<noteq> [])) \<and>
         (languageClient_start H exe (cfg_debugLog H) = StartRejected reason \<or>
          languageClient_start H exe (cfg_debugLog H) = StartedThenThrew n reason \<longrightarrow>
            fst (restartClient H w) = Returns () \<and>
            client (fst (snd (restartClient H w))) = client w \<and>
            (\<forall>c. Stopped c \<notin> set (snd (snd (restartClient H w))) \<and>
                 Disposed c \<notin> set (snd (snd (restartClient H w)))) \<and>
            warning_for reason \<in> set (snd (snd (restartClient H w))))"
proof -
  note en = restartClient_located [OF assms]
  have msgs: "\<forall>e \<in> set l1. is_message e"
    using getZLSPath_messages [of H w] assms by simp
  have cl: "client w1 = client w"
    using getZLSPath_client [of H w] assms by simp
  have ok: "restartClient H w =
      (Returns (), w1\<lparr>client := Some n\<rparr>, l1 @ [Started n, Stopped old, Disposed old])"
    if "languageClient_start H exe (cfg_debugLog H) = StartedOk n" "client w = Some old"
      "client_stop H old = None" "client_dispose H old = None"
    using that cl
    by (simp add: en startClient_def stopClient_def)
  have bad: "fst (restartClient H w) = Returns () \<and>
      client (fst (snd (restartClient H w))) = client w \<and>
      (\<forall>c. Stopped c \<notin> set (snd (snd (restartClient H w))) \<and>
           Disposed c \<notin> set (snd (snd (restartClient H w)))) \<and>
      warning_for reason \<in> set (snd (snd (restartClient H w)))"
    if "languageClient_start H exe (cfg_debugLog H) = StartRejected reason \<or>
        languageClient_start H exe (cfg_debugLog H) = StartedThenThrew n reason"
  proof -
    have nm: "\<not> is_message (Stopped c :: 'a event)" "\<not> is_message (Disposed c :: 'a event)" for c
      by simp_all
    have w: "Stopped c \<noteq> (warning_for reason :: 'a event)"
      "Disposed c \<noteq> (warning_for reason :: 'a event)" for c
      by (simp_all add: warning_for_def split: thrown.splits)
    from that show ?thesis
    proof
      assume "languageClient_start H exe (cfg_debugLog H) = StartRejected reason"
      then have "restartClient H w = (Returns (), w1, l1 @ [warning_for reason])"
        by (simp add: en startClient_def)
      with cl msgs nm w show ?thesis by auto
    next
      assume "languageClient_start H exe (cfg_debugLog H) = StartedThenThrew n reason"
      then have "restartClient H w = (Returns (), w1, l1 @ [Started n, warning_for reason])"
        by (simp add: en startClient_def)
      with cl msgs nm w show ?thesis by auto
    qed
  qed
  show ?thesis using ok bad live_during_handover [OF msgs] by blast
qed

theorem restart_order_witness:
  "fst (getZLSPath sample_host sample_world) =
     Returns (Some (''/storage/zls/0.13.0/zls'', ((0, 13, 0), ''0.13.0''))) \<and>
   languageClient_start sample_host ''/storage/zls/0.13.0/zls'' (cfg_debugLog sample_host)
     = StartedOk 2 \<and>
   client sample_world = Some 1 \<and> client_stop sample_host 1 = None \<and>
   client_dispose sample_host 1 = None \<and>
   fst (restartClient sample_host sample_world) = Returns () \<and>
   client (fst (snd (restartClient sample_host sample_world))) = Some 2 \<and>
   snd (snd (restartClient sample_host sample_world)) = [Started 2, Stopped 1, Disposed 1] \<and>
   live_after [1] [Started 2 :: sample_version event] = [1, 2] \<and>
   live_after [1] [Started 2, Stopped 1 :: sample_version event] = [2] \<and>
   languageClient_start failing_start_host ''/storage/zls/0.13.0/zls'' (cfg_debugLog failing_start_host)
     = StartRejected (ErrorObj ''spawn EACCES'') \<and>
   fst (restartClient failing_start_host sample_world) = Returns () \<and>
   client (fst (snd (restartClient failing_start_host sample_world))) = Some 1 \<and>
   WarnFailedToRun (Some ''spawn EACCES'') \<in> set (snd (snd (restartClient failing_start_host sample_world)))"
proof -
  let ?v = "((0, 13, 0), ''0.13.0'') :: sample_version"
  let ?exe = "''/storage/zls/0.13.0/zls''"
  let ?w1 = "sample_world\<lparr>globalState :=
      (globalState sample_world)(''zls-select-version-0.13.0'' \<mapsto> sample_response)\<rparr>"
  have g: "getZLSPath sample_host sample_world = (Returns (Some (?exe, ?v)), ?w1, [])"
    by (simp add: getZLSPath_def fetchVersion_def select_artifact_def check_version_def
        cacheKey_def sample_host_def sample_response_def has_key_def js_prop_def
        sample_new_SemVer_def sample_compare_def truthy_str_def Let_def)
  have g': "getZLSPath failing_start_host sample_world = (Returns (Some (?exe, ?v)), ?w1, [])"
    by (simp add: getZLSPath_def fetchVersion_def select_artifact_def check_version_def
        cacheKey_def failing_start_host_def sample_host_def sample_response_def has_key_def
        js_prop_def sample_new_SemVer_def sample_compare_def truthy_str_def Let_def)
  have s: "languageClient_start sample_host ?exe (cfg_debugLog sample_host) = StartedOk 2"
    "client sample_world = Some 1" "client_stop sample_host 1 = None"
    "client_dispose sample_host 1 = None"
    by (simp_all add: sample_host_def sample_world_def)
  have f: "languageClient_start failing_start_host ?exe (cfg_debugLog failing_start_host)
     = StartRejected (ErrorObj ''spawn EACCES'')"
    by (simp add: failing_start_host_def)
  note R = restart_order [OF g, of 2 1] restart_order [OF g', of _ _ "ErrorObj ''spawn EACCES''"]
  from R(1) s
  have a: "restartClient sample_host sample_world =
      (Returns (), ?w1\<lparr>client := Some 2\<rparr>, [] @ [Started 2, Stopped 1, Disposed 1])"
    by blast
  from R(2) f
  have c: "fst (restartClient failing_start_host sample_world) = Returns ()"
    "client (fst (snd (restartClient failing_start_host sample_world))) = client sample_world"
    "warning_for (ErrorObj ''spawn EACCES'')
       \<in> set (snd (snd (restartClient failing_start_host sample_world)))"
    by blast+
  have wf: "(warning_for (ErrorObj ''spawn EACCES'') :: sample_version event)
      = WarnFailedToRun (Some ''spawn EACCES'')"
    by (simp add: warning_for_def)
  show ?thesis using g s f a c unfolding wf by simp
qed

end
